theory Spec2Isabelle
  imports Complex_Main
begin

section \<open>JavaScript numbers\<close>

text \<open>
  A JavaScript \<^verbatim>\<open>number\<close> is NaN, one of the two infinities, or a finite value.
  A finite value is modelled by the rational it denotes; comparisons, \<^verbatim>\<open>Math.max\<close>,
  \<^verbatim>\<open>Math.min\<close>, \<^verbatim>\<open>Math.round\<close>, \<^verbatim>\<open>Math.abs\<close> and \<^verbatim>\<open>toFixed\<close> are exact on it.
  Sums, products and quotients of finite values are taken exactly: the rounding of
  binary floating point to 53 bits, overflow to an infinity and the sign of zero are
  not modelled.
\<close>

datatype jsnum = NaN | NInf | Fin rat | PInf

text \<open>The relational operator \<^verbatim>\<open><=\<close>: false as soon as one side is NaN.\<close>

fun js_le :: "jsnum \<Rightarrow> jsnum \<Rightarrow> bool" where
  "js_le NaN _ = False"
| "js_le _ NaN = False"
| "js_le NInf _ = True"
| "js_le _ PInf = True"
| "js_le (Fin a) (Fin b) = (a \<le> b)"
| "js_le PInf _ = False"
| "js_le _ NInf = False"

text \<open>The relational operator \<^verbatim>\<open>>=\<close>.\<close>

definition js_ge :: "jsnum \<Rightarrow> jsnum \<Rightarrow> bool" where
  "js_ge a b = js_le b a"

text \<open>Strict inequality \<^verbatim>\<open>!==\<close> on numbers: NaN differs from everything, itself included.\<close>

definition js_strict_ne :: "jsnum \<Rightarrow> jsnum \<Rightarrow> bool" where
  "js_strict_ne a b = (a = NaN \<or> b = NaN \<or> a \<noteq> b)"

text \<open>\<^verbatim>\<open>Math.max(a, b)\<close> and \<^verbatim>\<open>Math.min(a, b)\<close>: NaN as soon as one argument is NaN.\<close>

definition Math_max :: "jsnum \<Rightarrow> jsnum \<Rightarrow> jsnum" where
  "Math_max a b = (if a = NaN \<or> b = NaN then NaN else if js_le a b then b else a)"

definition Math_min :: "jsnum \<Rightarrow> jsnum \<Rightarrow> jsnum" where
  "Math_min a b = (if a = NaN \<or> b = NaN then NaN else if js_le a b then a else b)"

text \<open>\<^verbatim>\<open>Math.round\<close>: the nearest integer, a tie going towards plus infinity.\<close>

fun Math_round :: "jsnum \<Rightarrow> jsnum" where
  "Math_round (Fin x) = Fin (of_int \<lfloor>x + 1 / 2\<rfloor>)"
| "Math_round x = x"

fun Math_abs :: "jsnum \<Rightarrow> jsnum" where
  "Math_abs NaN = NaN"
| "Math_abs NInf = PInf"
| "Math_abs PInf = PInf"
| "Math_abs (Fin x) = Fin \<bar>x\<bar>"

text \<open>The operators \<^verbatim>\<open>+\<close>, \<^verbatim>\<open>*\<close> and \<^verbatim>\<open>/\<close> on numbers. A zero is taken as positive.\<close>

fun js_add :: "jsnum \<Rightarrow> jsnum \<Rightarrow> jsnum" where
  "js_add NaN _ = NaN"
| "js_add _ NaN = NaN"
| "js_add (Fin a) (Fin b) = Fin (a + b)"
| "js_add PInf NInf = NaN"
| "js_add NInf PInf = NaN"
| "js_add PInf _ = PInf"
| "js_add _ PInf = PInf"
| "js_add NInf _ = NInf"
| "js_add _ NInf = NInf"

definition signed_inf :: "bool \<Rightarrow> jsnum" where
  "signed_inf positive = (if positive then PInf else NInf)"

fun js_mul :: "jsnum \<Rightarrow> jsnum \<Rightarrow> jsnum" where
  "js_mul NaN _ = NaN"
| "js_mul _ NaN = NaN"
| "js_mul (Fin a) (Fin b) = Fin (a * b)"
| "js_mul (Fin a) PInf = (if a = 0 then NaN else signed_inf (0 < a))"
| "js_mul (Fin a) NInf = (if a = 0 then NaN else signed_inf (a < 0))"
| "js_mul PInf (Fin b) = (if b = 0 then NaN else signed_inf (0 < b))"
| "js_mul NInf (Fin b) = (if b = 0 then NaN else signed_inf (b < 0))"
| "js_mul PInf PInf = PInf"
| "js_mul NInf NInf = PInf"
| "js_mul PInf NInf = NInf"
| "js_mul NInf PInf = NInf"

fun js_div :: "jsnum \<Rightarrow> jsnum \<Rightarrow> jsnum" where
  "js_div NaN _ = NaN"
| "js_div _ NaN = NaN"
| "js_div (Fin a) (Fin b) =
     (if b = 0 then (if a = 0 then NaN else signed_inf (0 < a)) else Fin (a / b))"
| "js_div (Fin a) PInf = Fin 0"
| "js_div (Fin a) NInf = Fin 0"
| "js_div PInf (Fin b) = signed_inf (0 \<le> b)"
| "js_div NInf (Fin b) = signed_inf (b < 0)"
| "js_div PInf PInf = NaN"
| "js_div NInf NInf = NaN"
| "js_div PInf NInf = NaN"
| "js_div NInf PInf = NaN"

text \<open>The operator \<^verbatim>\<open>-\<close>.\<close>

fun js_neg :: "jsnum \<Rightarrow> jsnum" where
  "js_neg NaN = NaN"
| "js_neg NInf = PInf"
| "js_neg PInf = NInf"
| "js_neg (Fin x) = Fin (- x)"

definition js_sub :: "jsnum \<Rightarrow> jsnum \<Rightarrow> jsnum" where
  "js_sub a b = js_add a (js_neg b)"

text \<open>A natural number (the \<^verbatim>\<open>length\<close> of an array) as a number.\<close>

definition js_nat :: "nat \<Rightarrow> jsnum" where
  "js_nat n = Fin (of_nat n)"

text \<open>The \<^verbatim>\<open>length\<close> of an array, as a number.\<close>

definition js_length :: "'a list \<Rightarrow> jsnum" where
  "js_length xs = js_nat (length xs)"

section \<open>The chart component's state\<close>

text \<open>
  \<^verbatim>\<open>BrushState\<close>: the shared viewport, two percentages. (The source's field names are
  \<^verbatim>\<open>start\<close> and \<^verbatim>\<open>end\<close>.)
\<close>

record BrushState =
  brush_start :: jsnum
  brush_end :: jsnum

text \<open>
  One \<^verbatim>\<open>ChartItem\<close> together with the context it reads: \<^verbatim>\<open>brush\<close> and \<^verbatim>\<open>dragging\<close> are
  the state of the enclosing \<^verbatim>\<open>ChartList\<close>, the other fields are the chart's own refs
  and state. \<^verbatim>\<open>timerPending\<close> says whether the timeout stored in \<^verbatim>\<open>dragTimerRef\<close> is
  still to fire.
\<close>

record 'a ChartItem =
  brush :: BrushState
  dragging :: bool
  draggingRef :: bool
  timerPending :: bool
  displayData :: "'a list"
  pendingDataRef :: "'a list option"

text \<open>
  The effect on \<^verbatim>\<open>[data]\<close> (lines 123-129): a refresh that arrives during a drag is
  parked in \<^verbatim>\<open>pendingDataRef\<close>, otherwise it is displayed.
\<close>

definition dataEffect :: "'a list \<Rightarrow> 'a ChartItem \<Rightarrow> 'a ChartItem" where
  "dataEffect data st =
     (if draggingRef st then st\<lparr>pendingDataRef := Some data\<rparr>
      else st\<lparr>displayData := data\<rparr>)"

text \<open>The same effect run once for each of a sequence of refreshes, oldest first.\<close>

definition dataEffects :: "'a list list \<Rightarrow> 'a ChartItem \<Rightarrow> 'a ChartItem" where
  "dataEffects updates st = foldl (\<lambda>s data. dataEffect data s) st updates"

text \<open>
  The timeout callback of \<^verbatim>\<open>handleBrushChange\<close> (lines 193-200), run when 150 ms have
  passed without another brush change. An array, even an empty one, is truthy, so the
  test \<^verbatim>\<open>if (pendingDataRef.current)\<close> is the test for non-null.
\<close>

definition settle :: "'a ChartItem \<Rightarrow> 'a ChartItem" where
  "settle st =
     (let st1 = st\<lparr>draggingRef := False, dragging := False, timerPending := False\<rparr>
      in case pendingDataRef st1 of
           Some pending \<Rightarrow> st1\<lparr>displayData := pending, pendingDataRef := None\<rparr>
         | None \<Rightarrow> st1)"

text \<open>
  The state a chart is mounted in (lines 51-52 and 117-120): the viewport is the caller's
  \<^verbatim>\<open>initialBrush\<close> or the full range, nothing is being dragged, the data is shown and
  nothing is pending.
\<close>

definition mount :: "BrushState option \<Rightarrow> 'a list \<Rightarrow> 'a ChartItem" where
  "mount initialBrush data =
     \<lparr>brush = (case initialBrush of Some b \<Rightarrow> b
                                   | None \<Rightarrow> \<lparr>brush_start = Fin 0, brush_end = Fin 100\<rparr>),
      dragging = False, draggingRef = False, timerPending = False,
      displayData = data, pendingDataRef = None\<rparr>"

section \<open>The windowing function\<close>

text \<open>
  \<^verbatim>\<open>brushIndexRange\<close> (lines 131-139), a function of the viewport and of
  \<^verbatim>\<open>displayData.length\<close>. \<^verbatim>\<open>toIndex\<close> is its local helper.
\<close>

record IndexRange =
  startIndex :: jsnum
  endIndex :: jsnum

definition toIndex :: "jsnum \<Rightarrow> jsnum \<Rightarrow> jsnum" where
  "toIndex maxIndex pct =
     Math_max (Fin 0) (Math_min maxIndex (Math_round (js_mul (js_div pct (Fin 100)) maxIndex)))"

definition brushIndexRange :: "BrushState \<Rightarrow> nat \<Rightarrow> IndexRange" where
  "brushIndexRange b len =
     (let maxIndex = Math_max (js_sub (js_nat len) (Fin 1)) (Fin 0)
      in if js_le maxIndex (Fin 0) then \<lparr>startIndex = Fin 0, endIndex = Fin 0\<rparr>
         else \<lparr>startIndex = toIndex maxIndex (brush_start b),
               endIndex = toIndex maxIndex (brush_end b)\<rparr>)"

text \<open>
  \<^verbatim>\<open>handleBrushChange\<close> (lines 187-207). \<^verbatim>\<open>toPct\<close> is its local helper; the argument
  carries the two optional indices the brush reports. The timeout it arms is
  \<^const>\<open>settle\<close>.
\<close>

definition toPct :: "jsnum \<Rightarrow> jsnum \<Rightarrow> jsnum" where
  "toPct maxIndex idx =
     Math_max (Fin 0) (Math_min (Fin 100) (js_mul (js_div idx maxIndex) (Fin 100)))"

definition handleBrushChange ::
    "jsnum option \<times> jsnum option \<Rightarrow> 'a ChartItem \<Rightarrow> 'a ChartItem" where
  "handleBrushChange nxt st =
     (case nxt of
        (Some nextStart, Some nextEnd) \<Rightarrow>
          (let maxIndex = Math_max (js_sub (js_length (displayData st)) (Fin 1)) (Fin 1)
           in st\<lparr>draggingRef := True, dragging := True, timerPending := True,
                 brush := \<lparr>brush_start = toPct maxIndex nextStart,
                            brush_end = toPct maxIndex nextEnd\<rparr>\<rparr>)
      | _ \<Rightarrow> st)"

text \<open>
  The windowing function as the specification words it: the percentage is clamped into
  0..100 first, scaled and rounded, and the index clamped into 0..maxIndex; the inverse
  clamps the quotient into 0..1 and scales it by 100.
\<close>

definition clamp :: "jsnum \<Rightarrow> jsnum \<Rightarrow> jsnum \<Rightarrow> jsnum" where
  "clamp x lo hi = Math_max lo (Math_min hi x)"

definition spec_index :: "jsnum \<Rightarrow> jsnum \<Rightarrow> jsnum" where
  "spec_index maxIndex pct =
     clamp (Math_round (js_mul (js_div (clamp pct (Fin 0) (Fin 100)) (Fin 100)) maxIndex))
       (Fin 0) maxIndex"

definition spec_window :: "BrushState \<Rightarrow> nat \<Rightarrow> IndexRange" where
  "spec_window b len =
     (if len \<le> 1 then \<lparr>startIndex = Fin 0, endIndex = Fin 0\<rparr>
      else \<lparr>startIndex = spec_index (js_nat (len - 1)) (brush_start b),
            endIndex = spec_index (js_nat (len - 1)) (brush_end b)\<rparr>)"

definition spec_pct :: "nat \<Rightarrow> jsnum \<Rightarrow> jsnum" where
  "spec_pct len idx =
     js_mul (clamp (js_div idx (Math_max (js_sub (js_nat len) (Fin 1)) (Fin 1))) (Fin 0) (Fin 1))
       (Fin 100)"

text \<open>
  The index a finite percentage \<open>x\<close> is mapped to when the last index is \<open>k\<close>, as an
  integer: the value of \<^const>\<open>toIndex\<close> on finite arguments (lemma \<open>toIndex_Fin\<close>).
\<close>

definition index_of :: "nat \<Rightarrow> rat \<Rightarrow> int" where
  "index_of k x = max 0 (min (int k) \<lfloor>x / 100 * of_nat k + 1 / 2\<rfloor>)"

section \<open>The viewport correction\<close>

text \<open>
  The effect on \<^verbatim>\<open>[brush.start, brush.end, displayData.length, setBrush]\<close>
  (lines 174-185). \<^verbatim>\<open>brushCorrection\<close> is the argument of its call of \<^verbatim>\<open>setBrush\<close>, or
  \<^const>\<open>None\<close> when it returns without calling it.
\<close>

definition brushCorrection :: "bool \<Rightarrow> nat \<Rightarrow> BrushState \<Rightarrow> BrushState option" where
  "brushCorrection isDragging len b =
     (if isDragging then None
      else let maxIndex = Math_max (js_sub (js_nat len) (Fin 1)) (Fin 0)
           in if js_le maxIndex (Fin 0) then None
              else let pctStart = Math_max (Fin 0) (Math_min (brush_start b) (Fin 100));
                       pctEnd = Math_max pctStart (Math_min (brush_end b) (Fin 100))
                   in if js_strict_ne pctStart (brush_start b) \<or> js_strict_ne pctEnd (brush_end b)
                      then Some \<lparr>brush_start = pctStart, brush_end = pctEnd\<rparr>
                      else None)"

definition brushCorrectionEffect :: "'a ChartItem \<Rightarrow> 'a ChartItem" where
  "brushCorrectionEffect st =
     (case brushCorrection (draggingRef st) (length (displayData st)) (brush st) of
        None \<Rightarrow> st
      | Some b \<Rightarrow> st\<lparr>brush := b\<rparr>)"

text \<open>
  A viewport as the data model wants it: both percentages in 0..100 and in order.
\<close>

definition validViewport :: "BrushState \<Rightarrow> bool" where
  "validViewport b \<longleftrightarrow>
     js_le (Fin 0) (brush_start b) \<and> js_le (brush_start b) (brush_end b) \<and>
     js_le (brush_end b) (Fin 100)"

section \<open>The chart as a transition system\<close>

text \<open>
  What can happen to a mounted chart, in any order: a refresh of \<^verbatim>\<open>data\<close>, a brush change
  reported by the chart library, the pending timeout firing, and a run of the correction
  effect. The timeout fires only while it is pending.
\<close>

datatype 'a event =
    DataArrives "'a list"
  | BrushChange "jsnum option \<times> jsnum option"
  | TimerFires
  | CorrectionRuns

fun step :: "'a event \<Rightarrow> 'a ChartItem \<Rightarrow> 'a ChartItem" where
  "step (DataArrives data) st = dataEffect data st"
| "step (BrushChange nxt) st = handleBrushChange nxt st"
| "step TimerFires st = (if timerPending st then settle st else st)"
| "step CorrectionRuns st = brushCorrectionEffect st"

definition run :: "'a event list \<Rightarrow> 'a ChartItem \<Rightarrow> 'a ChartItem" where
  "run events st = foldl (\<lambda>s e. step e s) st events"

section \<open>The visible slice\<close>

text \<open>
  \<^verbatim>\<open>Array.prototype.slice(start, end)\<close>: each bound goes through ToIntegerOrInfinity
  (NaN is 0, a fraction is truncated towards zero), a negative bound counts from the
  end, and both are cut to the array.
\<close>

datatype int_or_inf = MinusInf | Integral int | PlusInf

definition js_truncate :: "rat \<Rightarrow> int" where
  "js_truncate x = (if 0 \<le> x then \<lfloor>x\<rfloor> else \<lceil>x\<rceil>)"

fun ToIntegerOrInfinity :: "jsnum \<Rightarrow> int_or_inf" where
  "ToIntegerOrInfinity NaN = Integral 0"
| "ToIntegerOrInfinity PInf = PlusInf"
| "ToIntegerOrInfinity NInf = MinusInf"
| "ToIntegerOrInfinity (Fin x) = Integral (js_truncate x)"

fun relative_index :: "nat \<Rightarrow> int_or_inf \<Rightarrow> nat" where
  "relative_index len MinusInf = 0"
| "relative_index len (Integral i) = (if i < 0 then nat (max (int len + i) 0) else min (nat i) len)"
| "relative_index len PlusInf = len"

definition Array_slice :: "'a list \<Rightarrow> jsnum \<Rightarrow> jsnum \<Rightarrow> 'a list" where
  "Array_slice xs from until =
     (let k = relative_index (length xs) (ToIntegerOrInfinity from);
          final = relative_index (length xs) (ToIntegerOrInfinity until)
      in take (final - k) (drop k xs))"

text \<open>\<^verbatim>\<open>visibleData\<close> (lines 141-146).\<close>

definition visibleData :: "'a list \<Rightarrow> IndexRange \<Rightarrow> 'a list" where
  "visibleData dd r =
     (if length dd = 0 then dd
      else let first = Math_max (Fin 0) (Math_min (js_sub (js_length dd) (Fin 1)) (startIndex r));
               final = Math_max first (Math_min (js_sub (js_length dd) (Fin 1)) (endIndex r))
           in Array_slice dd first (js_add final (Fin 1)))"

section \<open>Series statistics\<close>

text \<open>
  A sample is a \<^verbatim>\<open>Record<string, number | string>\<close>; reading a key it does not have
  gives \<^verbatim>\<open>undefined\<close>, here \<^const>\<open>None\<close>.
\<close>

datatype jsval = JNumber jsnum | JString string

type_synonym sample = "string \<rightharpoonup> jsval"

record LineConfig =
  dataKey :: string
  label :: string
  color :: string

record Stat =
  stat_key :: string
  stat_label :: string
  stat_color :: string
  stat_max :: "jsnum option"
  stat_min :: "jsnum option"
  stat_avg :: "jsnum option"

text \<open>The filter \<^verbatim>\<open>typeof v === "number" && Number.isFinite(v)\<close>.\<close>

fun isFiniteNumber :: "jsval option \<Rightarrow> bool" where
  "isFiniteNumber (Some (JNumber (Fin x))) = True"
| "isFiniteNumber _ = False"

text \<open>
  The cast \<^verbatim>\<open>as number[]\<close> after the filter. It is applied to values that passed
  \<^const>\<open>isFiniteNumber\<close> only.
\<close>

fun asNumber :: "jsval option \<Rightarrow> jsnum" where
  "asNumber (Some (JNumber n)) = n"
| "asNumber _ = NaN"

text \<open>\<^verbatim>\<open>Math.max(...values)\<close> and \<^verbatim>\<open>Math.min(...values)\<close> start from the infinities.\<close>

definition Math_max_list :: "jsnum list \<Rightarrow> jsnum" where
  "Math_max_list vs = foldl Math_max NInf vs"

definition Math_min_list :: "jsnum list \<Rightarrow> jsnum" where
  "Math_min_list vs = foldl Math_min PInf vs"

text \<open>One element of \<^verbatim>\<open>stats\<close> (lines 148-166), and the whole of it.\<close>

definition lineStat :: "sample list \<Rightarrow> LineConfig \<Rightarrow> Stat" where
  "lineStat visible line =
     (let values = map asNumber (filter isFiniteNumber (map (\<lambda>item. item (dataKey line)) visible))
      in if length values = 0
         then \<lparr>stat_key = dataKey line, stat_label = label line, stat_color = color line,
                stat_max = None, stat_min = None, stat_avg = None\<rparr>
         else \<lparr>stat_key = dataKey line, stat_label = label line, stat_color = color line,
                stat_max = Some (Math_max_list values),
                stat_min = Some (Math_min_list values),
                stat_avg = Some (js_div (foldl js_add (Fin 0) values) (js_length values))\<rparr>)"

definition stats :: "LineConfig list \<Rightarrow> sample list \<Rightarrow> Stat list" where
  "stats lines visible = map (lineStat visible) lines"

text \<open>The finite numbers a line has in a slice, in order: what the filter keeps.\<close>

fun finiteValue :: "jsval option \<Rightarrow> rat option" where
  "finiteValue (Some (JNumber (Fin x))) = Some x"
| "finiteValue _ = None"

definition finiteValues :: "string \<Rightarrow> sample list \<Rightarrow> rat list" where
  "finiteValues k visible = List.map_filter (\<lambda>item. finiteValue (item k)) visible"

section \<open>Formatting\<close>

text \<open>The decimal digits of a natural number, most significant first.\<close>

definition digit_char :: "nat \<Rightarrow> char" where
  "digit_char d = ''0123456789'' ! d"

fun decimal_digits :: "nat \<Rightarrow> string" where
  "decimal_digits n =
     (if n < 10 then [digit_char n] else decimal_digits (n div 10) @ [digit_char (n mod 10)])"

text \<open>
  \<^verbatim>\<open>Number.prototype.toFixed(f)\<close>, in the steps of the language definition: the sign is
  split off, the magnitude scaled by \<open>10 ^ f\<close> is rounded to the nearest integer (the
  larger one on a tie), its digits are padded with zeros to \<open>f + 1\<close> places and the
  point is put before the last \<open>f\<close>. From \<open>10 ^ 21\<close> on the result is the number's
  ordinary string in exponent notation, which is the parameter \<open>numberToString\<close>.
\<close>

definition fixed_digits :: "nat \<Rightarrow> rat \<Rightarrow> string" where
  "fixed_digits f x =
     (let n = nat \<lfloor>x * 10 ^ f + 1 / 2\<rfloor>;
          m = decimal_digits n
      in if f = 0 then m
         else let m' = (if length m \<le> f then replicate (f + 1 - length m) CHR ''0'' @ m else m);
                  k = length m'
              in take (k - f) m' @ ''.'' @ drop (k - f) m')"

fun toFixed :: "(rat \<Rightarrow> string) \<Rightarrow> nat \<Rightarrow> jsnum \<Rightarrow> string" where
  "toFixed numberToString f NaN = ''NaN''"
| "toFixed numberToString f PInf = ''Infinity''"
| "toFixed numberToString f NInf = ''-Infinity''"
| "toFixed numberToString f (Fin x) =
     (let s = (if x < 0 then ''-'' else []);
          x' = (if x < 0 then - x else x)
      in s @ (if 10 ^ 21 \<le> x' then numberToString x' else fixed_digits f x'))"

text \<open>The em dash U+2014, as the three bytes of its UTF-8 encoding.\<close>

definition em_dash :: string where
  "em_dash = [CHR 0xE2, CHR 0x80, CHR 0x94]"

text \<open>\<^verbatim>\<open>formatNumber\<close> (lines 168-172).\<close>

definition formatNumber :: "(rat \<Rightarrow> string) \<Rightarrow> jsnum option \<Rightarrow> string" where
  "formatNumber numberToString v =
     (case v of
        None \<Rightarrow> em_dash
      | Some n \<Rightarrow>
          if n = NaN then em_dash
          else if js_ge (Math_abs n) (Fin 100) then toFixed numberToString 0 n
          else toFixed numberToString 1 n)"

section \<open>Freezing the display during a drag\<close>

lemma dataEffects_Nil: "dataEffects [] st = st"
  by (simp add: dataEffects_def)

lemma dataEffects_snoc:
  "dataEffects (updates @ [data]) st = dataEffect data (dataEffects updates st)"
  by (simp add: dataEffects_def)

lemma dataEffects_dragging:
  "draggingRef st \<Longrightarrow>
     draggingRef (dataEffects updates st) \<and>
     displayData (dataEffects updates st) = displayData st \<and>
     pendingDataRef (dataEffects updates st) =
       (if updates = [] then pendingDataRef st else Some (last updates))"
proof (induction updates rule: rev_induct)
  case Nil
  then show ?case by (simp add: dataEffects_Nil)
next
  case (snoc data updates)
  then show ?case by (simp add: dataEffects_snoc dataEffect_def)
qed

text \<open>
  Claim C1. While the chart's dragging flag is set, any number of data refreshes leaves
  \<^verbatim>\<open>displayData\<close> as it was, and after each refresh \<^verbatim>\<open>pendingDataRef\<close> holds exactly the
  refresh that arrived last: a single refresh overwrites whatever was pending, and after
  a non-empty sequence of refreshes the pending value is the last of them. The flag
  itself stays set.
\<close>

theorem freeze_invariant:
  "draggingRef st \<Longrightarrow>
     displayData (dataEffect data st) = displayData st \<and>
     pendingDataRef (dataEffect data st) = Some data \<and>
     draggingRef (dataEffects updates st) \<and>
     displayData (dataEffects updates st) = displayData st \<and>
     (updates \<noteq> [] \<longrightarrow> pendingDataRef (dataEffects updates st) = Some (last updates))"
  using dataEffects_dragging [of st updates] by (simp add: dataEffect_def)

theorem freeze_invariant_witness:
  "draggingRef \<lparr>brush = \<lparr>brush_start = Fin 0, brush_end = Fin 100\<rparr>, dragging = True,
       draggingRef = True, timerPending = True, displayData = [1::nat, 2],
       pendingDataRef = Some [7]\<rparr> \<and>
   displayData (dataEffects [[3], [4, 5], [6]]
     \<lparr>brush = \<lparr>brush_start = Fin 0, brush_end = Fin 100\<rparr>, dragging = True,
       draggingRef = True, timerPending = True, displayData = [1::nat, 2],
       pendingDataRef = Some [7]\<rparr>) = [1, 2] \<and>
   pendingDataRef (dataEffects [[3], [4, 5], [6]]
     \<lparr>brush = \<lparr>brush_start = Fin 0, brush_end = Fin 100\<rparr>, dragging = True,
       draggingRef = True, timerPending = True, displayData = [1::nat, 2],
       pendingDataRef = Some [7]\<rparr>) = Some [6]"
  using freeze_invariant [of "\<lparr>brush = \<lparr>brush_start = Fin 0, brush_end = Fin 100\<rparr>,
       dragging = True, draggingRef = True, timerPending = True, displayData = [1::nat, 2],
       pendingDataRef = Some [7]\<rparr>" "[3]" "[[3], [4, 5], [6]]"]
  by simp

section \<open>Number lemmas\<close>


lemma Math_max_Fin: "Math_max (Fin a) (Fin b) = Fin (max a b)"
  by (simp add: Math_max_def max_def)

lemma Math_min_Fin: "Math_min (Fin a) (Fin b) = Fin (min a b)"
  by (simp add: Math_min_def min_def)

lemma js_sub_Fin: "js_sub (Fin a) (Fin b) = Fin (a - b)"
  by (simp add: js_sub_def)

lemma maxIndex_small: "len \<le> 1 \<Longrightarrow> Math_max (js_sub (js_nat len) (Fin 1)) (Fin 0) = Fin 0"
  by (simp add: js_nat_def js_sub_Fin Math_max_Fin max_def)

lemma maxIndex_large:
  "2 \<le> len \<Longrightarrow> Math_max (js_sub (js_nat len) (Fin 1)) (Fin 0) = js_nat (len - 1)"
  by (simp add: js_nat_def js_sub_Fin Math_max_Fin max_def of_nat_diff)

lemma floor_half: "\<lfloor>1 / 2 :: rat\<rfloor> = 0"
  by (simp add: floor_eq_iff)

lemma floor_int_half: "\<lfloor>of_int z + 1 / 2 :: rat\<rfloor> = z"
  by (simp add: floor_eq_iff)

section \<open>The forward windowing function\<close>

lemma toIndex_Fin: "toIndex (js_nat k) (Fin x) = Fin (of_int (index_of k x))"
proof -
  have "(of_nat k :: rat) = of_int (int k)" by simp
  then show ?thesis
    unfolding toIndex_def js_nat_def index_of_def
    by (simp add: Math_max_Fin Math_min_Fin del: of_int_of_nat_eq flip: of_int_min of_int_max)
qed

lemma toIndex_PInf: "0 < k \<Longrightarrow> toIndex (js_nat k) PInf = Fin (of_int (int k))"
  by (simp add: toIndex_def js_nat_def signed_inf_def Math_max_def Math_min_def)

lemma toIndex_NInf: "0 < k \<Longrightarrow> toIndex (js_nat k) NInf = Fin 0"
  by (simp add: toIndex_def js_nat_def signed_inf_def Math_max_def Math_min_def)

lemma toIndex_NaN: "toIndex m NaN = NaN"
  by (simp add: toIndex_def Math_max_def Math_min_def)

lemma index_of_bounds: "0 \<le> index_of k x \<and> index_of k x \<le> int k"
  by (simp add: index_of_def)

lemma index_of_mono: "x \<le> y \<Longrightarrow> index_of k x \<le> index_of k y"
proof -
  assume "x \<le> y"
  then have "x / 100 * of_nat k + 1 / 2 \<le> y / 100 * of_nat k + 1 / 2"
    by (simp add: mult_right_mono divide_right_mono)
  then have "\<lfloor>x / 100 * of_nat k + 1 / 2\<rfloor> \<le> \<lfloor>y / 100 * of_nat k + 1 / 2\<rfloor>"
    by (rule floor_mono)
  then show ?thesis unfolding index_of_def by auto
qed

lemma index_of_low: "x \<le> 0 \<Longrightarrow> index_of k x = 0"
proof -
  assume "x \<le> 0"
  then have "x / 100 * of_nat k \<le> 0"
    by (simp add: mult_nonpos_nonneg divide_nonpos_pos)
  then have "\<lfloor>x / 100 * of_nat k + 1 / 2\<rfloor> \<le> 0"
    by (simp add: floor_le_iff)
  then show ?thesis unfolding index_of_def by linarith
qed

lemma index_of_exact:
  assumes "0 < k"
  shows "index_of k (of_nat i / of_nat k * 100) = min (int k) (int i)"
proof -
  have "(of_nat i / of_nat k * 100) / 100 * of_nat k = (of_nat i :: rat)"
    using assms by simp
  then have "\<lfloor>(of_nat i / of_nat k * 100) / 100 * of_nat k + 1 / 2 :: rat\<rfloor> = \<lfloor>of_int (int i) + 1 / 2 :: rat\<rfloor>"
    by simp
  also have "\<dots> = int i"
    by (rule floor_int_half)
  finally show ?thesis unfolding index_of_def by simp
qed

lemma index_of_high: "100 \<le> x \<Longrightarrow> index_of k x = int k"
proof -
  assume "100 \<le> x"
  then have "1 \<le> x / 100" by simp
  then have "1 * of_nat k \<le> x / 100 * (of_nat k :: rat)"
    by (intro mult_right_mono) simp_all
  then have "of_int (int k) \<le> x / 100 * of_nat k + 1 / 2" by simp
  then have "int k \<le> \<lfloor>x / 100 * of_nat k + 1 / 2\<rfloor>"
    by (simp only: le_floor_iff)
  then show ?thesis by (simp add: index_of_def)
qed

lemma toIndex_clamped:
  "toIndex (js_nat k) (Fin x) = toIndex (js_nat k) (Fin (max 0 (min 100 x)))"
proof -
  consider "x \<le> 0" | "0 < x" "x < 100" | "100 \<le> x" by linarith
  then show ?thesis
  proof cases
    case 1
    then show ?thesis by (simp add: toIndex_Fin index_of_low max_def min_def)
  next
    case 2
    then show ?thesis by (simp add: max_def min_def)
  next
    case 3
    then show ?thesis by (simp add: toIndex_Fin index_of_high max_def min_def)
  qed
qed

lemma spec_index_eq: "0 < k \<Longrightarrow> spec_index (js_nat k) pct = toIndex (js_nat k) pct"
proof (cases pct)
  case NaN
  then show ?thesis by (simp add: spec_index_def clamp_def toIndex_def Math_max_def Math_min_def)
next
  case NInf
  assume "0 < k"
  then show ?thesis using NInf
    by (simp add: spec_index_def clamp_def toIndex_NInf) (simp add: Math_max_def Math_min_def js_nat_def floor_half)
next
  case (Fin x)
  have "spec_index (js_nat k) (Fin x) = toIndex (js_nat k) (Fin (max 0 (min 100 x)))"
    by (simp add: spec_index_def clamp_def toIndex_def Math_max_Fin Math_min_Fin)
  then show ?thesis using Fin toIndex_clamped [of k x] by simp
next
  case PInf
  assume "0 < k"
  then show ?thesis using PInf
    by (simp add: spec_index_def clamp_def toIndex_PInf) (simp add: Math_max_def Math_min_def js_nat_def floor_int_half)
qed




lemma toIndex_integral:
  assumes "0 < k" "pct \<noteq> NaN"
  shows "\<exists>i. toIndex (js_nat k) pct = Fin (of_int i) \<and> 0 \<le> i \<and> i \<le> int k"
proof (cases pct)
  case NaN
  then show ?thesis using assms by simp
next
  case NInf
  then have "toIndex (js_nat k) pct = Fin (of_int 0)" using assms by (simp add: toIndex_NInf)
  then show ?thesis by force
next
  case (Fin x)
  then show ?thesis using index_of_bounds [of k x] by (auto simp: toIndex_Fin)
next
  case PInf
  then have "toIndex (js_nat k) pct = Fin (of_int (int k))"
    using assms by (simp only: toIndex_PInf)
  moreover have "0 \<le> int k" "int k \<le> int k" by simp_all
  ultimately show ?thesis by blast
qed

lemma toIndex_mono:
  assumes "0 < k" "js_le p q"
  shows "js_le (toIndex (js_nat k) p) (toIndex (js_nat k) q)"
proof (cases p)
  case NaN
  then show ?thesis using assms by simp
next
  case NInf
  obtain j where "toIndex (js_nat k) q = Fin (of_int j)" "0 \<le> j"
    using toIndex_integral [of k q] assms NInf by (cases q) auto
  then show ?thesis using NInf assms by (simp add: toIndex_NInf)
next
  case (Fin x)
  show ?thesis
  proof (cases q)
    case (Fin y)
    then show ?thesis using \<open>p = Fin x\<close> assms index_of_mono [of x y k]
      by (simp add: toIndex_Fin)
  next
    case PInf
    then show ?thesis using \<open>p = Fin x\<close> assms index_of_bounds [of k x]
      by (simp add: toIndex_Fin toIndex_PInf)
  qed (use \<open>p = Fin x\<close> assms in simp_all)
next
  case PInf
  then have "q = PInf" using assms by (cases q) simp_all
  then show ?thesis using PInf assms by (simp add: toIndex_PInf)
qed

text \<open>
  Claim C3, amended. For every series length of at least 1 and every viewport whose two
  percentages are not NaN, both computed indices are integers in \<open>0..len - 1\<close>, and
  \<open>startIndex \<le> endIndex\<close> whenever \<open>start \<le> end\<close>. \<^const>\<open>brushIndexRange\<close> rounds the two
  percentages independently and takes no maximum of the two indices: the order of an
  inverted viewport is restored later, in \<^const>\<open>visibleData\<close>.
\<close>

theorem index_range_bounds:
  assumes "1 \<le> len" "brush_start b \<noteq> NaN" "brush_end b \<noteq> NaN"
  shows "\<exists>i j. brushIndexRange b len = \<lparr>startIndex = Fin (of_int i), endIndex = Fin (of_int j)\<rparr> \<and>
           0 \<le> i \<and> i \<le> int len - 1 \<and> 0 \<le> j \<and> j \<le> int len - 1 \<and>
           (js_le (brush_start b) (brush_end b) \<longrightarrow> i \<le> j)"
proof (cases "len = 1")
  case True
  then have "brushIndexRange b len = \<lparr>startIndex = Fin (of_int 0), endIndex = Fin (of_int 0)\<rparr>"
    by (simp add: brushIndexRange_def maxIndex_small Let_def)
  then show ?thesis using True by force
next
  case False
  then have len: "2 \<le> len" "0 < len - 1" using assms(1) by simp_all
  obtain i where i: "toIndex (js_nat (len - 1)) (brush_start b) = Fin (of_int i)"
      "0 \<le> i" "i \<le> int (len - 1)"
    using toIndex_integral [OF len(2) assms(2)] by blast
  obtain j where j: "toIndex (js_nat (len - 1)) (brush_end b) = Fin (of_int j)"
      "0 \<le> j" "j \<le> int (len - 1)"
    using toIndex_integral [OF len(2) assms(3)] by blast
  have "\<not> js_le (js_nat (len - 1)) (Fin 0)" using len by (simp add: js_nat_def)
  then have r: "brushIndexRange b len = \<lparr>startIndex = Fin (of_int i), endIndex = Fin (of_int j)\<rparr>"
    using len i j by (simp add: brushIndexRange_def maxIndex_large Let_def)
  have "i \<le> j" if "js_le (brush_start b) (brush_end b)"
    using toIndex_mono [OF len(2) that] i j by simp
  then show ?thesis using r i j len by (intro exI [of _ i] exI [of _ j]) auto
qed

text \<open>
  Claim C3 as stated fails: the inverted viewport 100..0 on three samples gives the
  indices 2 and 0; a NaN percentage gives a NaN index; and for an empty series the
  index 0 is not in the empty range \<open>0..len - 1\<close>.
\<close>

theorem index_range_counterexample:
  "brushIndexRange \<lparr>brush_start = Fin 100, brush_end = Fin 0\<rparr> 3
     = \<lparr>startIndex = Fin 2, endIndex = Fin 0\<rparr> \<and>
   \<not> js_le (startIndex (brushIndexRange \<lparr>brush_start = Fin 100, brush_end = Fin 0\<rparr> 3))
           (endIndex (brushIndexRange \<lparr>brush_start = Fin 100, brush_end = Fin 0\<rparr> 3)) \<and>
   brushIndexRange \<lparr>brush_start = NaN, brush_end = Fin 100\<rparr> 3
     = \<lparr>startIndex = NaN, endIndex = Fin 2\<rparr> \<and>
   brushIndexRange \<lparr>brush_start = Fin 0, brush_end = Fin 100\<rparr> 0
     = \<lparr>startIndex = Fin 0, endIndex = Fin 0\<rparr> \<and>
   \<not> js_le (Fin 0) (js_sub (js_nat 0) (Fin 1))"
  by code_simp

theorem index_range_bounds_witness:
  "\<exists>i j. brushIndexRange \<lparr>brush_start = Fin 25, brush_end = Fin 75\<rparr> 5
            = \<lparr>startIndex = Fin (of_int i), endIndex = Fin (of_int j)\<rparr> \<and>
          0 \<le> i \<and> i \<le> j \<and> j \<le> 4"
proof -
  have "js_le (brush_start \<lparr>brush_start = Fin 25, brush_end = Fin 75\<rparr>)
          (brush_end \<lparr>brush_start = Fin 25, brush_end = Fin 75\<rparr>)" by simp
  then show ?thesis
    using index_range_bounds [of 5 "\<lparr>brush_start = Fin 25, brush_end = Fin 75\<rparr>"]
    by fastforce
qed

section \<open>The inverse windowing function and the round trip\<close>

lemma maxIndex_pct_small:
  "len \<le> 1 \<Longrightarrow> Math_max (js_sub (js_nat len) (Fin 1)) (Fin 1) = Fin 1"
  by (simp add: js_nat_def js_sub_Fin Math_max_Fin max_def)

lemma maxIndex_pct_large:
  "2 \<le> len \<Longrightarrow> Math_max (js_sub (js_nat len) (Fin 1)) (Fin 1) = js_nat (len - 1)"
  by (simp add: js_nat_def js_sub_Fin Math_max_Fin max_def of_nat_diff)

lemma toPct_Fin:
  "0 < m \<Longrightarrow> toPct (Fin m) (Fin x) = Fin (max 0 (min 100 (x / m * 100)))"
  by (simp add: toPct_def Math_max_Fin Math_min_Fin)

lemma toPct_clamp:
  assumes "0 < m"
  shows "toPct (Fin m) idx = js_mul (clamp (js_div idx (Fin m)) (Fin 0) (Fin 1)) (Fin 100)"
proof (cases idx)
  case (Fin x)
  have "max 0 (min 100 (y * 100)) = max 0 (min 1 y) * 100" for y :: rat
    unfolding max_def min_def by (cases "y \<le> 0"; cases "1 \<le> y") simp_all
  then have "max 0 (min 100 (x / m * 100)) = max 0 (min 1 (x / m)) * 100" .
  then show ?thesis using Fin assms
    by (simp add: toPct_Fin clamp_def Math_max_Fin Math_min_Fin)
qed (use assms in \<open>simp_all add: toPct_def clamp_def Math_max_def Math_min_def signed_inf_def\<close>)

lemma maxIndex_pct_pos:
  "\<exists>m. 0 < m \<and> Math_max (js_sub (js_nat len) (Fin 1)) (Fin 1) = Fin m"
  by (simp add: js_nat_def js_sub_Fin Math_max_Fin max_def)

lemma toPct_spec_pct:
  "toPct (Math_max (js_sub (js_nat len) (Fin 1)) (Fin 1)) idx = spec_pct len idx"
  using maxIndex_pct_pos [of len] by (auto simp: spec_pct_def toPct_clamp)

lemma roundtrip_exact:
  assumes "2 \<le> len" "i < len"
  shows "toIndex (js_nat (len - 1)) (toPct (js_nat (len - 1)) (js_nat i)) = js_nat i"
proof -
  let ?k = "len - 1"
  have k: "0 < ?k" "i \<le> ?k" using assms by simp_all
  have "0 \<le> (of_nat i :: rat) / of_nat ?k * 100" by simp
  moreover have "(of_nat i :: rat) / of_nat ?k * 100 \<le> 100"
    using k by (simp add: divide_le_eq)
  ultimately have "toPct (js_nat ?k) (js_nat i) = Fin (of_nat i / of_nat ?k * 100)"
    using k(1) by (simp add: js_nat_def toPct_Fin max_def min_def)
  then show ?thesis
    using index_of_exact [OF k(1), of i] k(2)
    by (simp add: toIndex_Fin) (simp add: js_nat_def)
qed


section \<open>Brush changes and the settle timeout\<close>

lemma handleBrushChange_fields:
  "draggingRef (handleBrushChange (Some i, Some j) st) \<and>
   displayData (handleBrushChange (Some i, Some j) st) = displayData st \<and>
   pendingDataRef (handleBrushChange (Some i, Some j) st) = pendingDataRef st"
  by (simp add: handleBrushChange_def Let_def)

lemma handleBrushChange_brush:
  "brush (handleBrushChange (Some i, Some j) st) =
     \<lparr>brush_start = toPct (Math_max (js_sub (js_length (displayData st)) (Fin 1)) (Fin 1)) i,
      brush_end = toPct (Math_max (js_sub (js_length (displayData st)) (Fin 1)) (Fin 1)) j\<rparr>"
  by (simp add: handleBrushChange_def Let_def)

lemma settle_fields:
  "draggingRef (settle st) = False \<and> dragging (settle st) = False \<and>
   timerPending (settle st) = False \<and> pendingDataRef (settle st) = None \<and>
   displayData (settle st) =
     (case pendingDataRef st of Some pending \<Rightarrow> pending | None \<Rightarrow> displayData st)"
  by (simp add: settle_def Let_def split: option.splits)

text \<open>
  In every state a mounted chart can reach, data is pending only during a drag, and the
  timeout is pending exactly during a drag.
\<close>

lemma step_invariant:
  assumes "(pendingDataRef st \<noteq> None \<longrightarrow> draggingRef st) \<and> (draggingRef st \<longleftrightarrow> timerPending st)"
  shows "(pendingDataRef (step e st) \<noteq> None \<longrightarrow> draggingRef (step e st)) \<and>
         (draggingRef (step e st) \<longleftrightarrow> timerPending (step e st))"
proof (cases e)
  case (DataArrives data)
  then show ?thesis using assms by (auto simp: dataEffect_def)
next
  case (BrushChange nxt)
  then show ?thesis using assms
    by (cases nxt) (auto simp: handleBrushChange_def Let_def split: option.splits)
next
  case TimerFires
  then show ?thesis using assms settle_fields [of st] by auto
next
  case CorrectionRuns
  then show ?thesis using assms by (auto simp: brushCorrectionEffect_def split: option.splits)
qed

lemma pending_only_while_dragging:
  "(pendingDataRef (run events (mount initialBrush data)) \<noteq> None \<longrightarrow>
      draggingRef (run events (mount initialBrush data))) \<and>
   (draggingRef (run events (mount initialBrush data)) \<longleftrightarrow>
      timerPending (run events (mount initialBrush data)))"
proof (induction events rule: rev_induct)
  case Nil
  then show ?case by (simp add: run_def mount_def)
next
  case (snoc e events)
  have eq: "run (events @ [e]) (mount initialBrush data)
      = step e (run events (mount initialBrush data))"
    by (simp add: run_def)
  show ?case unfolding eq by (rule step_invariant [OF snoc])
qed

text \<open>
  Claim C2. When the timeout fires, the chart's own dragging flag and the shared one are
  cleared, \<^verbatim>\<open>pendingDataRef\<close> becomes empty, and \<^verbatim>\<open>displayData\<close> becomes the pending data, or
  stays as it is when nothing is pending. If nothing was pending when the drag began,
  then after any refreshes during the drag the settled display is the last refresh, or
  the display from before the drag when there was no refresh.
\<close>

theorem settle_application:
  "draggingRef (settle st) = False \<and> dragging (settle st) = False \<and>
   pendingDataRef (settle st) = None \<and>
   displayData (settle st) =
     (case pendingDataRef st of Some pending \<Rightarrow> pending | None \<Rightarrow> displayData st) \<and>
   (pendingDataRef st = None \<longrightarrow>
      displayData (settle (dataEffects updates (handleBrushChange (Some i, Some j) st))) =
        (if updates = [] then displayData st else last updates))"
proof -
  let ?st1 = "handleBrushChange (Some i, Some j) st"
  have "displayData (settle (dataEffects updates ?st1)) =
          (if updates = [] then displayData st else last updates)"
    if "pendingDataRef st = None"
    using that settle_fields [of "dataEffects updates ?st1"]
      dataEffects_dragging [of ?st1 updates] handleBrushChange_fields [of i j st]
    by (cases "updates = []") (simp_all add: dataEffects_Nil)
  then show ?thesis using settle_fields [of st] by simp
qed

theorem settle_application_witness:
  "pendingDataRef (mount None [1::nat, 2]) = None \<and>
   displayData (settle (dataEffects [[3], [4, 5]]
     (handleBrushChange (Some (Fin 0), Some (Fin 1)) (mount None [1::nat, 2])))) = [4, 5] \<and>
   pendingDataRef (settle (dataEffects [[3], [4, 5]]
     (handleBrushChange (Some (Fin 0), Some (Fin 1)) (mount None [1::nat, 2])))) = None \<and>
   displayData (settle (dataEffects []
     (handleBrushChange (Some (Fin 0), Some (Fin 1)) (mount None [1::nat, 2])))) = [1, 2]"
  using settle_application [of "mount None [1::nat, 2]" "[[3], [4, 5]]" "Fin 0" "Fin 1"]
    settle_application [of "mount None [1::nat, 2]" "[]" "Fin 0" "Fin 1"]
    settle_application [of "dataEffects [[3], [4, 5]]
     (handleBrushChange (Some (Fin 0), Some (Fin 1)) (mount None [1::nat, 2]))" "[]" "Fin 0" "Fin 1"]
  by (simp add: mount_def)






section \<open>The viewport correction: lemmas and claim\<close>

lemma brushCorrection_large:
  assumes "2 \<le> len"
  shows "brushCorrection False len b =
     (let pctStart = Math_max (Fin 0) (Math_min (brush_start b) (Fin 100));
          pctEnd = Math_max pctStart (Math_min (brush_end b) (Fin 100))
      in if js_strict_ne pctStart (brush_start b) \<or> js_strict_ne pctEnd (brush_end b)
         then Some \<lparr>brush_start = pctStart, brush_end = pctEnd\<rparr>
         else None)"
proof -
  have "\<not> js_le (js_nat (len - 1)) (Fin 0)" using assms by (simp add: js_nat_def)
  then show ?thesis using assms by (simp add: brushCorrection_def maxIndex_large Let_def)
qed

lemma Math_max_min_NInf: "Math_max (Fin x) (Math_min NInf (Fin h)) = Fin x"
  and Math_max_min_PInf: "Math_max (Fin x) (Math_min PInf (Fin h)) = Fin (max x h)"
  and Math_max_min_Fin: "Math_max (Fin x) (Math_min (Fin a) (Fin h)) = Fin (max x (min a h))"
  and Math_max_min_NInf': "Math_max (Fin x) (Math_min (Fin h) NInf) = Fin x"
  and Math_max_min_PInf': "Math_max (Fin x) (Math_min (Fin h) PInf) = Fin (max x h)"
  by (simp_all add: Math_max_def Math_min_def max_def min_def)

lemma clamp_start:
  assumes "s \<noteq> NaN"
  shows "\<exists>x. Math_max (Fin 0) (Math_min s (Fin 100)) = Fin x \<and> 0 \<le> x \<and> x \<le> 100 \<and>
           clamp s (Fin 0) (Fin 100) = Fin x"
proof (cases s)
  case (Fin a)
  then show ?thesis by (simp add: clamp_def Math_max_min_Fin min.commute)
qed (use assms in \<open>simp_all add: clamp_def Math_max_min_NInf Math_max_min_PInf
      Math_max_min_NInf' Math_max_min_PInf'\<close>)

lemma clamp_end:
  assumes "e \<noteq> NaN" "0 \<le> x" "x \<le> 100"
  shows "\<exists>y. Math_max (Fin x) (Math_min e (Fin 100)) = Fin y \<and> x \<le> y \<and> y \<le> 100 \<and>
           Math_max (Fin x) (clamp e (Fin 0) (Fin 100)) = Fin y"
proof (cases e)
  case (Fin c)
  have "max x (max 0 (min 100 c)) = max x (min c 100)" using assms(2) by (simp add: max_def min_def)
  then show ?thesis using Fin assms(3)
    by (simp add: clamp_def Math_max_min_Fin Math_max_Fin)
qed (use assms in \<open>simp_all add: clamp_def Math_max_min_NInf Math_max_min_PInf
      Math_max_min_NInf' Math_max_min_PInf' Math_max_Fin max_def\<close>)

lemma validViewport_Fin:
  assumes "validViewport b"
  shows "\<exists>a c. brush_start b = Fin a \<and> brush_end b = Fin c \<and> 0 \<le> a \<and> a \<le> c \<and> c \<le> 100"
  using assms unfolding validViewport_def
  by (cases "brush_start b"; cases "brush_end b") simp_all

lemma brushCorrection_valid:
  assumes "2 \<le> len" "validViewport b"
  shows "brushCorrection False len b = None"
proof -
  obtain a c where "brush_start b = Fin a" "brush_end b = Fin c" "0 \<le> a" "a \<le> c" "c \<le> 100"
    using validViewport_Fin [OF assms(2)] by blast
  then show ?thesis
    by (simp add: brushCorrection_large [OF assms(1)] Math_max_min_Fin js_strict_ne_def)
qed




section \<open>The visible slice: lemmas and claim\<close>

lemma last_index_Fin:
  "dd \<noteq> [] \<Longrightarrow> js_sub (js_length dd) (Fin 1) = Fin (of_nat (length dd) - 1) \<and>
     (0::rat) \<le> of_nat (length dd) - 1"
  by (cases dd) (simp_all add: js_length_def js_nat_def js_sub_Fin)

lemma visible_first:
  assumes "s \<noteq> NaN" "0 \<le> h"
  shows "\<exists>x. Math_max (Fin 0) (Math_min (Fin h) s) = Fin x \<and> 0 \<le> x \<and> x \<le> h \<and>
           (\<forall>a. s = Fin a \<longrightarrow> x = max 0 (min h a))"
proof (cases s)
  case (Fin a)
  then show ?thesis using assms(2) by (simp add: Math_max_Fin Math_min_Fin)
qed (use assms in \<open>simp_all add: Math_max_def Math_min_def\<close>)

lemma visible_final:
  assumes "e \<noteq> NaN" "0 \<le> x" "x \<le> h"
  shows "\<exists>y. Math_max (Fin x) (Math_min (Fin h) e) = Fin y \<and> x \<le> y \<and> y \<le> h \<and>
           (\<forall>b. e = Fin b \<longrightarrow> y = max x (min h b))"
proof (cases e)
  case (Fin b)
  then show ?thesis using assms(3) by (simp add: Math_max_Fin Math_min_Fin)
qed (use assms in \<open>simp_all add: Math_max_def Math_min_def\<close>)

lemma Array_slice_Fin:
  assumes "0 \<le> x" "x \<le> y" "y \<le> of_nat (length dd) - 1"
  shows "Array_slice dd (Fin x) (js_add (Fin y) (Fin 1)) =
           take (nat \<lfloor>y\<rfloor> + 1 - nat \<lfloor>x\<rfloor>) (drop (nat \<lfloor>x\<rfloor>) dd) \<and>
         nat \<lfloor>x\<rfloor> \<le> nat \<lfloor>y\<rfloor> \<and> nat \<lfloor>y\<rfloor> < length dd"
proof -
  have fx: "0 \<le> \<lfloor>x\<rfloor>" "\<lfloor>x\<rfloor> \<le> \<lfloor>y\<rfloor>"
    using assms by (simp_all add: floor_mono)
  have "y < of_int (int (length dd))" using assms(3) by simp
  then have fy: "\<lfloor>y\<rfloor> < int (length dd)" by (simp only: floor_less_iff)
  have y1: "\<lfloor>y + 1\<rfloor> = \<lfloor>y\<rfloor> + 1" by simp
  have "0 \<le> y + 1" using assms by simp
  then have tr: "js_truncate x = \<lfloor>x\<rfloor>" "js_truncate (y + 1) = \<lfloor>y\<rfloor> + 1"
    using assms(1) y1 by (simp_all add: js_truncate_def)
  have "relative_index (length dd) (Integral \<lfloor>x\<rfloor>) = min (nat \<lfloor>x\<rfloor>) (length dd)"
    using fx(1) by simp
  also have "\<dots> = nat \<lfloor>x\<rfloor>" using fx fy by linarith
  finally have k: "relative_index (length dd) (ToIntegerOrInfinity (Fin x)) = nat \<lfloor>x\<rfloor>"
    by (simp add: tr)
  have "\<not> \<lfloor>y\<rfloor> + 1 < 0" using fx by linarith
  then have "relative_index (length dd) (Integral (\<lfloor>y\<rfloor> + 1))
      = min (nat (\<lfloor>y\<rfloor> + 1)) (length dd)"
    by simp
  also have "\<dots> = nat \<lfloor>y\<rfloor> + 1" using fx fy by linarith
  finally have f: "relative_index (length dd) (ToIntegerOrInfinity (js_add (Fin y) (Fin 1)))
      = nat \<lfloor>y\<rfloor> + 1"
    by (simp add: tr)
  have "Array_slice dd (Fin x) (js_add (Fin y) (Fin 1)) =
           take (nat \<lfloor>y\<rfloor> + 1 - nat \<lfloor>x\<rfloor>) (drop (nat \<lfloor>x\<rfloor>) dd)"
    by (simp only: Array_slice_def Let_def k f)
  moreover have "nat \<lfloor>x\<rfloor> \<le> nat \<lfloor>y\<rfloor>" "nat \<lfloor>y\<rfloor> < length dd" using fx fy by linarith+
  ultimately show ?thesis by simp
qed

lemma visibleData_slice:
  assumes "dd \<noteq> []" "startIndex r \<noteq> NaN" "endIndex r \<noteq> NaN"
  shows "\<exists>x y. visibleData dd r = take (nat \<lfloor>y\<rfloor> + 1 - nat \<lfloor>x\<rfloor>) (drop (nat \<lfloor>x\<rfloor>) dd) \<and>
           nat \<lfloor>x\<rfloor> \<le> nat \<lfloor>y\<rfloor> \<and> nat \<lfloor>y\<rfloor> < length dd \<and>
           (\<forall>a. startIndex r = Fin a \<longrightarrow> x = max 0 (min (of_nat (length dd) - 1) a)) \<and>
           (\<forall>b. endIndex r = Fin b \<longrightarrow> y = max x (min (of_nat (length dd) - 1) b))"
proof -
  let ?h = "of_nat (length dd) - 1 :: rat"
  have h: "js_sub (js_length dd) (Fin 1) = Fin ?h" "0 \<le> ?h"
    using last_index_Fin [OF assms(1)] by simp_all
  obtain x where x: "Math_max (Fin 0) (Math_min (Fin ?h) (startIndex r)) = Fin x"
    "0 \<le> x" "x \<le> ?h" "\<forall>a. startIndex r = Fin a \<longrightarrow> x = max 0 (min ?h a)"
    using visible_first [OF assms(2) h(2)] by blast
  obtain y where y: "Math_max (Fin x) (Math_min (Fin ?h) (endIndex r)) = Fin y"
    "x \<le> y" "y \<le> ?h" "\<forall>b. endIndex r = Fin b \<longrightarrow> y = max x (min ?h b)"
    using visible_final [OF assms(3) x(2,3)] by blast
  have "visibleData dd r = Array_slice dd (Fin x) (js_add (Fin y) (Fin 1))"
    using assms(1) by (simp add: visibleData_def Let_def h(1) x(1) y(1))
  then show ?thesis using Array_slice_Fin [OF x(2) y(2,3)] x(4) y(4) by auto
qed




section \<open>Series statistics: lemmas and claim\<close>

lemma values_finiteValues:
  "map asNumber (filter isFiniteNumber (map (\<lambda>item. item k) visible))
     = map Fin (finiteValues k visible)"
proof (induction visible)
  case Nil
  then show ?case by (simp add: finiteValues_def List.map_filter_simps)
next
  case (Cons item rest)
  then show ?case
    by (cases "item k" rule: isFiniteNumber.cases)
      (simp_all add: finiteValues_def List.map_filter_simps)
qed

lemma set_finiteValues:
  "set (finiteValues k visible) = {x. \<exists>item \<in> set visible. item k = Some (JNumber (Fin x))}"
proof (induction visible)
  case Nil
  then show ?case by (simp add: finiteValues_def List.map_filter_simps)
next
  case (Cons item rest)
  then show ?case
    by (cases "item k" rule: isFiniteNumber.cases)
      (auto simp: finiteValues_def List.map_filter_simps)
qed

lemma foldl_Math_max_Fin:
  "foldl Math_max (Fin a) (map Fin vs) = Fin (Max (insert a (set vs)))"
proof (induction vs arbitrary: a)
  case Nil
  then show ?case by simp
next
  case (Cons v vs)
  have "Max (insert (max a v) (set vs)) = Max (insert a (insert v (set vs)))"
    by (cases "vs = []") (simp_all add: max.assoc)
  then show ?case using Cons by (simp add: Math_max_Fin)
qed

lemma foldl_Math_min_Fin:
  "foldl Math_min (Fin a) (map Fin vs) = Fin (Min (insert a (set vs)))"
proof (induction vs arbitrary: a)
  case Nil
  then show ?case by simp
next
  case (Cons v vs)
  have "Min (insert (min a v) (set vs)) = Min (insert a (insert v (set vs)))"
    by (cases "vs = []") (simp_all add: min.assoc)
  then show ?case using Cons by (simp add: Math_min_Fin)
qed

lemma Math_max_list_Fin:
  "vs \<noteq> [] \<Longrightarrow> Math_max_list (map Fin vs) = Fin (Max (set vs))"
  by (cases vs) (simp_all add: Math_max_list_def Math_max_def foldl_Math_max_Fin)

lemma Math_min_list_Fin:
  "vs \<noteq> [] \<Longrightarrow> Math_min_list (map Fin vs) = Fin (Min (set vs))"
  by (cases vs) (simp_all add: Math_min_list_def Math_min_def foldl_Math_min_Fin)

lemma foldl_js_add_Fin: "foldl js_add (Fin a) (map Fin vs) = Fin (a + sum_list vs)"
  by (induction vs arbitrary: a) (simp_all add: add.assoc)

lemma average_Fin:
  "vs \<noteq> [] \<Longrightarrow>
     js_div (foldl js_add (Fin 0) (map Fin vs)) (js_length (map Fin vs))
       = Fin (sum_list vs / of_nat (length vs))"
  by (simp add: foldl_js_add_Fin js_length_def js_nat_def)



section \<open>Formatting: lemmas and claim\<close>

declare decimal_digits.simps [simp del]

lemma decimal_digits_small: "n < 10 \<Longrightarrow> decimal_digits n = [digit_char n]"
  by (simp add: decimal_digits.simps)

lemma decimal_digits_large:
  "10 \<le> n \<Longrightarrow> decimal_digits n = decimal_digits (n div 10) @ [digit_char (n mod 10)]"
  by (subst decimal_digits.simps) simp

lemma decimal_digits_nonempty: "decimal_digits n \<noteq> []"
  by (subst decimal_digits.simps) simp

lemma digit_char_not_point: "d < 10 \<Longrightarrow> digit_char d \<noteq> CHR ''.''"
proof -
  assume "d < 10"
  then have "d \<in> {0, 1, 2, 3, 4, 5, 6, 7, 8, 9}" by auto
  then show ?thesis by (auto simp: digit_char_def)
qed

lemma decimal_digits_no_point: "CHR ''.'' \<notin> set (decimal_digits n)"
proof (induction n rule: decimal_digits.induct)
  case (1 n)
  show ?case
  proof (cases "n < 10")
    case True
    then show ?thesis using digit_char_not_point [of n] by (simp add: decimal_digits_small)
  next
    case False
    then show ?thesis using 1 digit_char_not_point [of "n mod 10"]
      by (simp add: decimal_digits_large)
  qed
qed

lemma fixed_digits_0: "fixed_digits 0 x = decimal_digits (nat \<lfloor>x + 1 / 2\<rfloor>)"
  by (simp add: fixed_digits_def)

lemma fixed_digits_1:
  "fixed_digits 1 x =
     decimal_digits (nat \<lfloor>x * 10 + 1 / 2\<rfloor> div 10) @ ''.'' @
       [digit_char (nat \<lfloor>x * 10 + 1 / 2\<rfloor> mod 10)]"
proof -
  let ?n = "nat \<lfloor>x * 10 + 1 / 2\<rfloor>"
  show ?thesis
  proof (cases "?n < 10")
    case True
    then have "decimal_digits (?n div 10) = [digit_char 0]"
      by (simp add: decimal_digits_small)
    moreover have "[digit_char 0] = ''0''" by (simp add: digit_char_def)
    ultimately show ?thesis using True
      by (simp add: fixed_digits_def Let_def decimal_digits_small)
  next
    case False
    then have "decimal_digits ?n = decimal_digits (?n div 10) @ [digit_char (?n mod 10)]"
      by (simp add: decimal_digits_large)
    then show ?thesis using decimal_digits_nonempty [of "?n div 10"]
      by (simp add: fixed_digits_def Let_def)
  qed
qed

lemma toFixed_Fin:
  "\<bar>x\<bar> < 10 ^ 21 \<Longrightarrow>
     toFixed numberToString f (Fin x) = (if x < 0 then ''-'' else []) @ fixed_digits f \<bar>x\<bar>"
  by (simp add: abs_if Let_def)

lemma formatNumber_Fin:
  "formatNumber numberToString (Some (Fin v)) =
     (if 100 \<le> \<bar>v\<bar> then toFixed numberToString 0 (Fin v) else toFixed numberToString 1 (Fin v))"
  by (simp add: formatNumber_def js_ge_def)




end
